theory Spec2Isabelle
  imports Main "HOL-Library.Sublist"
begin

section \<open>Data model of the maze visualiser (static/js/index.js)\<close>

text \<open>
  Node ids are strings. \<^verbatim>\<open>mazeGraph\<close> is a JavaScript object from node id to an object
  from neighbour id to edge weight; it is modelled as an association list in the order
  \<^verbatim>\<open>Object.keys\<close> enumerates it. A weight that is \<^verbatim>\<open>null\<close> or absent is \<open>None\<close>.
  Edge weights, heuristic estimates and the speed are modelled as integers.
\<close>

type_synonym adjacency = "(string \<times> int option) list"
type_synonym graph = "(string \<times> adjacency) list"
type_synonym heuristic_table = "(string \<times> int) list"

text \<open>A value read from the heuristic table: a number, or \<^verbatim>\<open>undefined\<close> for a missing key.\<close>

datatype jsnum = Undefined | Num int

text \<open>
  A display token of a frontier snapshot: a bare node id (queue and stack), or the text
  \<^verbatim>\<open>node(f=value)\<close> that \<^verbatim>\<open>formatPriorityQueue\<close> builds for A*.
\<close>

datatype token = Node string | Scored string jsnum

text \<open>
  The narration lines, one constructor per template string of the source:
  \<^item> \<open>InitQueue\<close>: "Step 0: Initialize queue with start node A"
  \<^item> \<open>Dequeue n v\<close>: "Step n: Dequeue node v"
  \<^item> \<open>AddToQueue n v ns\<close>: "Step n: Add neighbors of v to queue: ns"
  \<^item> \<open>InitStack\<close>: "Step 0: Initialize stack with start node A"
  \<^item> \<open>PopStack n v\<close>: "Step n: Pop node v from stack"
  \<^item> \<open>AddToStack n v ns\<close>: "Step n: Add neighbors of v to stack: ns"
  \<^item> \<open>InitPriorityQueue h f\<close>: "Step 0: Initialize priority queue with A (g=0, h=h, f=f)"
  \<^item> \<open>RemoveLowest n v\<close>: "Step n: Remove node v with lowest f-value from priority queue"
  \<^item> \<open>EvaluateNeighbors n v ns\<close>: "Step n: Evaluate neighbors of v: ns"
  \<^item> \<open>Calculate v g h f\<close>: "    Calculate for v: g=g, h=h, f=f"
  \<^item> \<open>GoalReached n\<close>: "Step n: Goal reached at node B!"
  \<^item> \<open>FinalPath p\<close>: "Final path found: " followed by p joined with arrows
  \<^item> \<open>PathLength n\<close>: "Path length: n nodes"
  \<^item> \<open>TotalExplored n\<close>: "Total nodes explored: n nodes"

  The statements below are about these structured lines; \<open>render_narration\<close> gives
  their text.
\<close>

datatype narration =
    InitQueue
  | Dequeue nat string
  | AddToQueue nat string "string list"
  | InitStack
  | PopStack nat string
  | AddToStack nat string "string list"
  | InitPriorityQueue jsnum jsnum
  | RemoveLowest nat string
  | EvaluateNeighbors nat string "string list"
  | Calculate string int int int
  | GoalReached nat
  | FinalPath "string list"
  | PathLength nat
  | TotalExplored nat

text \<open>
  The text of each line and token, as the template literals build it. Numbers print in
  decimal; the arrow of \<^verbatim>\<open>path.join\<close> is given by its UTF-8 bytes.
\<close>

function show_nat :: "nat \<Rightarrow> string" where
  "show_nat n =
     (if n < 10 then [''0123456789'' ! n]
      else show_nat (n div 10) @ [''0123456789'' ! (n mod 10)])"
  by pat_completeness auto
termination
  by (relation "measure id") auto

declare show_nat.simps [simp del]

definition show_int :: "int \<Rightarrow> string" where
  "show_int i = (if i < 0 then ''-'' @ show_nat (nat (- i)) else show_nat (nat i))"

fun show_jsnum :: "jsnum \<Rightarrow> string" where
  "show_jsnum Undefined = ''undefined''"
| "show_jsnum (Num i) = show_int i"

fun join :: "string \<Rightarrow> string list \<Rightarrow> string" where
  "join sep [] = []"
| "join sep [x] = x"
| "join sep (x # y # ys) = x @ sep @ join sep (y # ys)"

definition arrow :: string where
  "arrow = '' '' @ [CHR 0xE2, CHR 0x86, CHR 0x92] @ '' ''"

fun render_narration :: "narration \<Rightarrow> string" where
  "render_narration InitQueue = ''Step 0: Initialize queue with start node A''"
| "render_narration (Dequeue n v) = ''Step '' @ show_nat n @ '': Dequeue node '' @ v"
| "render_narration (AddToQueue n v ns) =
     ''Step '' @ show_nat n @ '': Add neighbors of '' @ v @ '' to queue: '' @ join '', '' ns"
| "render_narration InitStack = ''Step 0: Initialize stack with start node A''"
| "render_narration (PopStack n v) =
     ''Step '' @ show_nat n @ '': Pop node '' @ v @ '' from stack''"
| "render_narration (AddToStack n v ns) =
     ''Step '' @ show_nat n @ '': Add neighbors of '' @ v @ '' to stack: '' @ join '', '' ns"
| "render_narration (InitPriorityQueue h f) =
     ''Step 0: Initialize priority queue with A (g=0, h='' @ show_jsnum h @ '', f='' @
       show_jsnum f @ '')''"
| "render_narration (RemoveLowest n v) =
     ''Step '' @ show_nat n @ '': Remove node '' @ v @ '' with lowest f-value from priority queue''"
| "render_narration (EvaluateNeighbors n v ns) =
     ''Step '' @ show_nat n @ '': Evaluate neighbors of '' @ v @ '': '' @ join '', '' ns"
| "render_narration (Calculate v g h f) =
     ''    Calculate for '' @ v @ '': g='' @ show_int g @ '', h='' @ show_int h @ '', f='' @
       show_int f"
| "render_narration (GoalReached n) = ''Step '' @ show_nat n @ '': Goal reached at node B!''"
| "render_narration (FinalPath p) = [CHR 0x0A] @ ''Final path found: '' @ join arrow p"
| "render_narration (PathLength n) = ''Path length: '' @ show_nat n @ '' nodes''"
| "render_narration (TotalExplored n) = ''Total nodes explored: '' @ show_nat n @ '' nodes''"

fun render_token :: "token \<Rightarrow> string" where
  "render_token (Node v) = v"
| "render_token (Scored v f) = v @ ''(f='' @ show_jsnum f @ '')''"

text \<open>The two global buffers that \<^verbatim>\<open>generateAlgorithmSteps\<close> fills.\<close>

record trace =
  algorithmSteps :: "narration list"
  dataStructureSteps :: "token list list"

text \<open>The locals shared by the three branches, and the frontier of each branch.\<close>

record search_vars = trace +
  visited :: "string set"
  stepCount :: nat

record bfs_vars = search_vars +
  queue :: "string list"

record dfs_vars = search_vars +
  stack :: "string list"

text \<open>\<^verbatim>\<open>Object.keys(mazeGraph[node] || {})\<close>: a node without an entry has no neighbours.\<close>

definition neighbor_keys :: "graph \<Rightarrow> string \<Rightarrow> string list" where
  "neighbor_keys mazeGraph node =
     (case map_of mazeGraph node of None \<Rightarrow> [] | Some adj \<Rightarrow> map fst adj)"

section \<open>Breadth-first reconstruction\<close>

definition bfs_init :: bfs_vars where
  "bfs_init = \<lparr>algorithmSteps = [InitQueue], dataStructureSteps = [[Node ''A'']],
     visited = {''A''}, stepCount = 1, queue = [''A'']\<rparr>"

text \<open>
  The block under \<^verbatim>\<open>if (i > 0)\<close>: narrate, \<^verbatim>\<open>queue.shift()\<close> (which leaves an empty
  array empty), snapshot, count.
\<close>

definition bfs_dequeue :: "nat \<Rightarrow> string \<Rightarrow> bfs_vars \<Rightarrow> bfs_vars" where
  "bfs_dequeue i node s =
     (if 0 < i then
        s\<lparr>algorithmSteps := algorithmSteps s @ [Dequeue (stepCount s) node],
          queue := tl (queue s),
          dataStructureSteps := dataStructureSteps s @ [map Node (tl (queue s))],
          stepCount := stepCount s + 1\<rparr>
      else s)"

text \<open>One round of \<^verbatim>\<open>for (const neighbor of neighbors)\<close>.\<close>

definition bfs_push :: "bfs_vars \<Rightarrow> string \<Rightarrow> bfs_vars" where
  "bfs_push s neighbor = s\<lparr>visited := insert neighbor (visited s), queue := queue s @ [neighbor]\<rparr>"

definition bfs_expand :: "graph \<Rightarrow> string \<Rightarrow> bfs_vars \<Rightarrow> bfs_vars" where
  "bfs_expand mazeGraph node s =
     (let neighbors = filter (\<lambda>neighbor. neighbor \<notin> visited s) (neighbor_keys mazeGraph node)
      in if neighbors \<noteq> [] then
           (let s1 = s\<lparr>algorithmSteps := algorithmSteps s @ [AddToQueue (stepCount s) node neighbors]\<rparr>;
                s2 = foldl bfs_push s1 neighbors
            in s2\<lparr>dataStructureSteps := dataStructureSteps s2 @ [map Node (queue s2)],
                  stepCount := stepCount s2 + 1\<rparr>)
         else s)"

definition goal_reached :: "'a search_vars_scheme \<Rightarrow> 'a search_vars_scheme" where
  "goal_reached s = s\<lparr>algorithmSteps := algorithmSteps s @ [GoalReached (stepCount s)]\<rparr>"

text \<open>The \<^verbatim>\<open>for\<close> loop over \<^verbatim>\<open>explored\<close>, from index \<open>i\<close> on; \<^verbatim>\<open>break\<close> ends the recursion.\<close>

fun bfs_loop :: "graph \<Rightarrow> nat \<Rightarrow> string list \<Rightarrow> bfs_vars \<Rightarrow> bfs_vars" where
  "bfs_loop mazeGraph i [] s = s"
| "bfs_loop mazeGraph i (node # rest) s =
     (let s' = bfs_expand mazeGraph node (bfs_dequeue i node s)
      in if node = ''B'' then goal_reached s' else bfs_loop mazeGraph (i + 1) rest s')"

section \<open>Depth-first reconstruction\<close>

definition dfs_init :: dfs_vars where
  "dfs_init = \<lparr>algorithmSteps = [InitStack], dataStructureSteps = [[Node ''A'']],
     visited = {''A''}, stepCount = 1, stack = [''A'']\<rparr>"

text \<open>\<^verbatim>\<open>stack.pop()\<close> drops the last element, and leaves an empty array empty.\<close>

definition dfs_pop :: "nat \<Rightarrow> string \<Rightarrow> dfs_vars \<Rightarrow> dfs_vars" where
  "dfs_pop i node s =
     (if 0 < i then
        s\<lparr>algorithmSteps := algorithmSteps s @ [PopStack (stepCount s) node],
          stack := butlast (stack s),
          dataStructureSteps := dataStructureSteps s @ [map Node (butlast (stack s))],
          stepCount := stepCount s + 1\<rparr>
      else s)"

definition dfs_push :: "dfs_vars \<Rightarrow> string \<Rightarrow> dfs_vars" where
  "dfs_push s neighbor = s\<lparr>visited := insert neighbor (visited s), stack := stack s @ [neighbor]\<rparr>"

definition dfs_expand :: "graph \<Rightarrow> string \<Rightarrow> dfs_vars \<Rightarrow> dfs_vars" where
  "dfs_expand mazeGraph node s =
     (let neighbors = rev (filter (\<lambda>neighbor. neighbor \<notin> visited s) (neighbor_keys mazeGraph node))
      in if neighbors \<noteq> [] then
           (let s1 = s\<lparr>algorithmSteps := algorithmSteps s @ [AddToStack (stepCount s) node neighbors]\<rparr>;
                s2 = foldl dfs_push s1 neighbors
            in s2\<lparr>dataStructureSteps := dataStructureSteps s2 @ [map Node (stack s2)],
                  stepCount := stepCount s2 + 1\<rparr>)
         else s)"

fun dfs_loop :: "graph \<Rightarrow> nat \<Rightarrow> string list \<Rightarrow> dfs_vars \<Rightarrow> dfs_vars" where
  "dfs_loop mazeGraph i [] s = s"
| "dfs_loop mazeGraph i (node # rest) s =
     (let s' = dfs_expand mazeGraph node (dfs_pop i node s)
      in if node = ''B'' then goal_reached s' else dfs_loop mazeGraph (i + 1) rest s')"

section \<open>A* reconstruction\<close>

text \<open>A priority-queue entry is the array \<^verbatim>\<open>[node, g, h, f]\<close>.\<close>

type_synonym item = "string \<times> int \<times> jsnum \<times> jsnum"

definition item_node :: "item \<Rightarrow> string" where
  "item_node a = fst a"

definition item_f :: "item \<Rightarrow> jsnum" where
  "item_f a = snd (snd (snd a))"

record astar_vars = search_vars +
  priorityQueue :: "item list"
  gScores :: "string \<rightharpoonup> int"

text \<open>\<^verbatim>\<open>heuristic[node]\<close>, and \<^verbatim>\<open>heuristic[node] || 0\<close>.\<close>

definition heuristic_raw :: "heuristic_table \<Rightarrow> string \<Rightarrow> jsnum" where
  "heuristic_raw heuristic node =
     (case map_of heuristic node of None \<Rightarrow> Undefined | Some v \<Rightarrow> Num v)"

definition heuristic_or_0 :: "heuristic_table \<Rightarrow> string \<Rightarrow> int" where
  "heuristic_or_0 heuristic node =
     (case map_of heuristic node of None \<Rightarrow> 0 | Some v \<Rightarrow> v)"

text \<open>
  \<^verbatim>\<open>mazeGraph[node][neighbor] || 1\<close>: a missing, null or zero weight counts as 1. The
  neighbour always comes from \<^verbatim>\<open>Object.keys(mazeGraph[node])\<close>, so \<^verbatim>\<open>mazeGraph[node]\<close>
  exists when this is evaluated (lemma \<open>neighbor_keys_entry\<close> below); the first branch is
  there only to keep the function total.
\<close>

definition edge_cost :: "graph \<Rightarrow> string \<Rightarrow> string \<Rightarrow> int" where
  "edge_cost mazeGraph node neighbor =
     (case map_of mazeGraph node of
        None \<Rightarrow> 1
      | Some adj \<Rightarrow>
          (case map_of adj neighbor of
             Some (Some w) \<Rightarrow> if w = 0 then 1 else w
           | _ \<Rightarrow> 1))"

text \<open>
  The comparator \<^verbatim>\<open>(a, b) => a[3] - b[3]\<close>. A difference with \<^verbatim>\<open>undefined\<close> is NaN,
  which \<^verbatim>\<open>Array.prototype.sort\<close> reads as 0.
\<close>

definition compare_f :: "item \<Rightarrow> item \<Rightarrow> int" where
  "compare_f a b =
     (case (item_f a, item_f b) of (Num x, Num y) \<Rightarrow> x - y | _ \<Rightarrow> 0)"

text \<open>
  \<^verbatim>\<open>Array.prototype.sort\<close> is a stable sort; it is modelled as insertion from the right,
  an element going before the first one it does not exceed. For a comparator that is
  not a consistent ordering (an \<^verbatim>\<open>undefined\<close> f-value), ECMAScript leaves the order to
  the implementation, and this is one of the admissible outcomes.
\<close>

fun place_item :: "item \<Rightarrow> item list \<Rightarrow> item list" where
  "place_item a [] = [a]"
| "place_item a (b # bs) = (if compare_f a b \<le> 0 then a # b # bs else b # place_item a bs)"

definition js_sort :: "item list \<Rightarrow> item list" where
  "js_sort xs = foldr place_item xs []"

definition formatPriorityQueue :: "item list \<Rightarrow> token list" where
  "formatPriorityQueue q = map (\<lambda>a. Scored (item_node a) (item_f a)) q"

definition astar_init :: "heuristic_table \<Rightarrow> astar_vars" where
  "astar_init heuristic =
     (let hA = heuristic_raw heuristic ''A''
      in \<lparr>algorithmSteps = [InitPriorityQueue hA hA],
          dataStructureSteps = [formatPriorityQueue [(''A'', 0, hA, hA)]],
          visited = {}, stepCount = 1,
          priorityQueue = [(''A'', 0, hA, hA)], gScores = [''A'' \<mapsto> 0]\<rparr>)"

definition astar_remove :: "nat \<Rightarrow> string \<Rightarrow> astar_vars \<Rightarrow> astar_vars" where
  "astar_remove i node s =
     (if 0 < i then
        s\<lparr>algorithmSteps := algorithmSteps s @ [RemoveLowest (stepCount s) node],
          priorityQueue := tl (priorityQueue s),
          dataStructureSteps := dataStructureSteps s @ [formatPriorityQueue (tl (priorityQueue s))],
          stepCount := stepCount s + 1\<rparr>
      else s)"

text \<open>One round of \<^verbatim>\<open>for (const neighbor of unvisitedNeighbors)\<close>.\<close>

definition astar_relax ::
  "graph \<Rightarrow> heuristic_table \<Rightarrow> string \<Rightarrow> int \<Rightarrow> astar_vars \<Rightarrow> string \<Rightarrow> astar_vars" where
  "astar_relax mazeGraph heuristic node currentG s neighbor =
     (let edgeCost = edge_cost mazeGraph node neighbor;
          newG = currentG + edgeCost;
          h = heuristic_or_0 heuristic neighbor;
          f = newG + h
      in if (case gScores s neighbor of None \<Rightarrow> True | Some old \<Rightarrow> newG < old) then
           s\<lparr>gScores := (gScores s)(neighbor \<mapsto> newG),
             algorithmSteps := algorithmSteps s @ [Calculate neighbor newG h f],
             priorityQueue := js_sort (priorityQueue s @ [(neighbor, newG, Num h, Num f)])\<rparr>
         else s)"

definition astar_expand ::
  "graph \<Rightarrow> heuristic_table \<Rightarrow> string \<Rightarrow> int \<Rightarrow> astar_vars \<Rightarrow> astar_vars" where
  "astar_expand mazeGraph heuristic node currentG s =
     (let neighbors = neighbor_keys mazeGraph node;
          unvisitedNeighbors = filter (\<lambda>n. n \<notin> visited s) neighbors
      in if unvisitedNeighbors \<noteq> [] then
           (let s1 = s\<lparr>algorithmSteps :=
                        algorithmSteps s @ [EvaluateNeighbors (stepCount s) node unvisitedNeighbors]\<rparr>;
                s2 = foldl (astar_relax mazeGraph heuristic node currentG) s1 unvisitedNeighbors
            in s2\<lparr>dataStructureSteps := dataStructureSteps s2 @ [formatPriorityQueue (priorityQueue s2)],
                  stepCount := stepCount s2 + 1\<rparr>)
         else s)"

text \<open>The part of the loop body before the goal test: read g, mark visited, remove.\<close>

definition astar_visit :: "nat \<Rightarrow> string \<Rightarrow> astar_vars \<Rightarrow> astar_vars" where
  "astar_visit i node s = astar_remove i node (s\<lparr>visited := insert node (visited s)\<rparr>)"

fun astar_loop :: "graph \<Rightarrow> heuristic_table \<Rightarrow> nat \<Rightarrow> string list \<Rightarrow> astar_vars \<Rightarrow> astar_vars" where
  "astar_loop mazeGraph heuristic i [] s = s"
| "astar_loop mazeGraph heuristic i (node # rest) s =
     (let currentG = (case gScores s node of None \<Rightarrow> 0 | Some v \<Rightarrow> v);
          s1 = astar_visit i node s
      in if node = ''B'' then goal_reached s1
         else astar_loop mazeGraph heuristic (i + 1) rest
                (astar_expand mazeGraph heuristic node currentG s1))"

section \<open>The page\<close>

datatype error = TypeError

text \<open>
  What the code needs of the document: whether the elements it looks up by id exist
  (\<^verbatim>\<open>getElementById\<close> yields \<^verbatim>\<open>null\<close> for a missing one, and reading or writing a
  property of \<^verbatim>\<open>null\<close> raises a TypeError), and the number the \<^verbatim>\<open>speed\<close> input holds.
  \<^item> \<open>steps_container\<close>, \<open>data_structure_container\<close>: the two containers that
    \<^verbatim>\<open>updateAlgorithmStep\<close> writes;
  \<^item> \<open>ds_title\<close>: the caption element that \<^verbatim>\<open>generateAlgorithmSteps\<close> writes;
  \<^item> \<open>speed_value\<close>: the value of the \<^verbatim>\<open>speed\<close> input, \<open>None\<close> when the element is missing.
\<close>

record page =
  steps_container :: bool
  data_structure_container :: bool
  ds_title :: bool
  speed_value :: "int option"

section \<open>The step generator\<close>

text \<open>
  What \<^verbatim>\<open>generateAlgorithmSteps\<close> leaves behind: the two global buffers, and the text
  it wrote to the caption element (\<open>None\<close> when it wrote none).
\<close>

record generated = trace +
  caption :: "string option"

text \<open>The three summary lines pushed after the branches.\<close>

definition finish_steps ::
  "string option \<Rightarrow> string list \<Rightarrow> string list \<Rightarrow> 'a trace_scheme \<Rightarrow> generated" where
  "finish_steps title explored path t =
     \<lparr>algorithmSteps = algorithmSteps t @
        [FinalPath path, PathLength (length path), TotalExplored (length explored)],
      dataStructureSteps = dataStructureSteps t,
      caption = title\<rparr>"

text \<open>
  \<^verbatim>\<open>generateAlgorithmSteps(algorithm, explored, path)\<close>, with the globals \<^verbatim>\<open>mazeGraph\<close>
  and \<^verbatim>\<open>heuristic\<close> as parameters. Each of the three branches begins with
  \<^verbatim>\<open>dsTitle.textContent = ...\<close>, which raises when the caption element is missing; the
  buffers are then empty and nothing else has happened. Any other algorithm kind never
  touches \<^verbatim>\<open>dsTitle\<close>.
\<close>

definition generateAlgorithmSteps ::
  "page \<Rightarrow> graph \<Rightarrow> heuristic_table \<Rightarrow> string \<Rightarrow> string list \<Rightarrow> string list
     \<Rightarrow> error + generated" where
  "generateAlgorithmSteps pg mazeGraph heuristic algorithm explored path =
     (if algorithm = ''bfs'' then
        (if ds_title pg then
           Inr (finish_steps (Some ''Queue (FIFO)'') explored path
                  (bfs_loop mazeGraph 0 explored bfs_init))
         else Inl TypeError)
      else if algorithm = ''dfs'' then
        (if ds_title pg then
           Inr (finish_steps (Some ''Stack (LIFO)'') explored path
                  (dfs_loop mazeGraph 0 explored dfs_init))
         else Inl TypeError)
      else if algorithm = ''astar'' then
        (if ds_title pg then
           Inr (finish_steps (Some ''Priority Queue (sorted by f = g + h)'') explored path
                  (astar_loop mazeGraph heuristic 0 explored (astar_init heuristic)))
         else Inl TypeError)
      else
        Inr (finish_steps None explored path
               \<lparr>algorithmSteps = [], dataStructureSteps = []\<rparr>))"

section \<open>The playback scheduler\<close>

text \<open>The calls the tick handler makes on the page.\<close>

datatype instruction =
    HighlightNode string string
  | PositionRobotAtNode string
  | ShowSteps "narration list"
  | ShowDataStructure "token list"

record scheduler = trace +
  animationInterval :: "int option"
  currentAnimationStep :: nat
  exploredNodes :: "string list"
  pathNodes :: "string list"

text \<open>\<^verbatim>\<open>const animationDelay = 1000 - speed\<close>.\<close>

definition animationDelay :: "int \<Rightarrow> int" where
  "animationDelay speed = 1000 - speed"

text \<open>
  \<^verbatim>\<open>startAnimation(explored, path, algorithm)\<close>; \<open>None\<close> stands for \<^verbatim>\<open>null\<close>. The step
  generator reads \<^verbatim>\<open>explored.length\<close> and \<^verbatim>\<open>path.join\<close> on every branch, so a null list
  raises there; an exception of the step generator, and the one of
  \<^verbatim>\<open>document.getElementById('speed').value\<close> on a page without that input, leave the
  function before \<^verbatim>\<open>setInterval\<close> is reached. The timer handle is modelled by the
  delay it was created with.
\<close>

definition startAnimation ::
  "page \<Rightarrow> graph \<Rightarrow> heuristic_table \<Rightarrow> string list option \<Rightarrow> string list option \<Rightarrow> string
     \<Rightarrow> error + scheduler" where
  "startAnimation pg mazeGraph heuristic explored path algorithm =
     (case (explored, path) of
        (Some e, Some p) \<Rightarrow>
          (case generateAlgorithmSteps pg mazeGraph heuristic algorithm e p of
             Inl err \<Rightarrow> Inl err
           | Inr t \<Rightarrow>
               (case speed_value pg of
                  None \<Rightarrow> Inl TypeError
                | Some speed \<Rightarrow>
                    Inr \<lparr>algorithmSteps = algorithmSteps t,
                         dataStructureSteps = dataStructureSteps t,
                         animationInterval = Some (animationDelay speed),
                         currentAnimationStep = 0,
                         exploredNodes = e, pathNodes = p\<rparr>))
      | _ \<Rightarrow> Inl TypeError)"

text \<open>
  \<^verbatim>\<open>updateAlgorithmStep(step)\<close>: the instructions issued, and the exception if a
  container that has to be written is missing.
\<close>

definition updateAlgorithmStep ::
  "page \<Rightarrow> 'a trace_scheme \<Rightarrow> nat \<Rightarrow> instruction list \<times> error option" where
  "updateAlgorithmStep pg s step =
     (if step < length (algorithmSteps s) \<and> \<not> steps_container pg then ([], Some TypeError)
      else
        (let shown = (if step < length (algorithmSteps s)
                      then [ShowSteps (take (step + 1) (algorithmSteps s))] else [])
         in if step < length (dataStructureSteps s) \<and> \<not> data_structure_container pg
            then (shown, Some TypeError)
            else (shown @ (if step < length (dataStructureSteps s)
                           then [ShowDataStructure (dataStructureSteps s ! step)] else []),
                  None)))"

text \<open>
  The \<^verbatim>\<open>setInterval\<close> callback: the instructions of this tick, the state it leaves, and
  the exception that left it. The counter is advanced after the calls, so an exception
  leaves it as it was.
\<close>

definition tick :: "page \<Rightarrow> scheduler \<Rightarrow> instruction list \<times> scheduler \<times> error option" where
  "tick pg s =
     (let n = currentAnimationStep s in
      if n < length (exploredNodes s) then
        (let nodeId = exploredNodes s ! n;
             r = updateAlgorithmStep pg s n
         in (HighlightNode nodeId ''visited'' # fst r,
             (if snd r = None then s\<lparr>currentAnimationStep := n + 1\<rparr> else s),
             snd r))
      else if n < length (exploredNodes s) + length (pathNodes s) then
        (let pathIndex = n - length (exploredNodes s);
             nodeId = pathNodes s ! pathIndex;
             r = updateAlgorithmStep pg s n
         in (HighlightNode nodeId ''in-path'' # PositionRobotAtNode nodeId # fst r,
             (if snd r = None then s\<lparr>currentAnimationStep := n + 1\<rparr> else s),
             snd r))
      else ([], s\<lparr>animationInterval := None\<rparr>, None))"

text \<open>
  The timer firing at most \<open>k\<close> times: it fires only while the handle is set, and an
  exception in the callback does not clear it. The result lists the instructions of
  each firing.
\<close>

fun run_timer :: "page \<Rightarrow> nat \<Rightarrow> scheduler \<Rightarrow> instruction list list \<times> scheduler" where
  "run_timer pg 0 s = ([], s)"
| "run_timer pg (Suc k) s =
     (case animationInterval s of
        None \<Rightarrow> ([], s)
      | Some d \<Rightarrow>
          (let r = tick pg s; rest = run_timer pg k (fst (snd r))
           in (fst r # fst rest, snd rest)))"

section \<open>Notions used in the statements\<close>

text \<open>
  The graph of the worked scenarios: A has the neighbours B and C, B has the neighbour
  D, C and D have none; every weight is 1. And a chain: A, then C, then D.
\<close>

definition example_graph :: graph where
  "example_graph =
     [(''A'', [(''B'', Some 1), (''C'', Some 1)]), (''B'', [(''D'', Some 1)]),
      (''C'', []), (''D'', [])]"

definition chain_graph :: graph where
  "chain_graph = [(''A'', [(''C'', Some 1)]), (''C'', [(''D'', Some 1)]), (''D'', [])]"

definition example_heuristic :: heuristic_table where
  "example_heuristic = [(''A'', 2), (''B'', 1), (''C'', 1), (''D'', 0)]"

text \<open>The narration lines of a pop from the stack, and of the goal.\<close>

fun pop_line :: "narration \<Rightarrow> bool" where
  "pop_line (PopStack n v) = True"
| "pop_line _ = False"

fun goal_line :: "narration \<Rightarrow> bool" where
  "goal_line (GoalReached n) = True"
| "goal_line _ = False"

text \<open>The keys of a JavaScript object are pairwise distinct.\<close>

definition unique_keys :: "graph \<Rightarrow> bool" where
  "unique_keys mazeGraph = list_all (\<lambda>entry. distinct (map fst (snd entry))) mazeGraph"

text \<open>
  The node ids a narration line reports as put into the queue or stack; over a whole
  run they list every insertion, in order.
\<close>

fun inserted :: "narration \<Rightarrow> string list" where
  "inserted InitQueue = [''A'']"
| "inserted InitStack = [''A'']"
| "inserted (AddToQueue n v ns) = ns"
| "inserted (AddToStack n v ns) = ns"
| "inserted _ = []"

definition insertion_log :: "narration list \<Rightarrow> string list" where
  "insertion_log ls = concat (map inserted ls)"

text \<open>The invariant of the queue and stack loops; \<open>fr\<close> is the frontier.\<close>

definition frontier_inv :: "string list \<Rightarrow> 'a search_vars_scheme \<Rightarrow> bool" where
  "frontier_inv fr s \<longleftrightarrow>
     distinct fr \<and> set fr \<subseteq> visited s \<and>
     (\<forall>snap \<in> set (dataStructureSteps s). distinct snap) \<and>
     distinct (insertion_log (algorithmSteps s)) \<and>
     set (insertion_log (algorithmSteps s)) \<subseteq> visited s"

text \<open>JavaScript's \<^verbatim>\<open><=\<close> on f-values: false as soon as one side is \<^verbatim>\<open>undefined\<close>.\<close>

fun js_le :: "jsnum \<Rightarrow> jsnum \<Rightarrow> bool" where
  "js_le (Num a) (Num b) = (a \<le> b)"
| "js_le _ _ = False"

fun token_f :: "token \<Rightarrow> jsnum" where
  "token_f (Scored n f) = f"
| "token_f (Node n) = Undefined"

definition ascending :: "token list \<Rightarrow> bool" where
  "ascending snap = sorted_wrt js_le (map token_f snap)"

text \<open>
  The priority-queue entries a narration line reports as inserted, as display tokens:
  the start entry and one entry for each "Calculate" line.
\<close>

fun enqueued :: "narration \<Rightarrow> token list" where
  "enqueued (InitPriorityQueue h f) = [Scored ''A'' f]"
| "enqueued (Calculate v g h f) = [Scored v (Num f)]"
| "enqueued _ = []"

definition enqueue_log :: "narration list \<Rightarrow> token list" where
  "enqueue_log ls = concat (map enqueued ls)"

definition same_f :: "jsnum \<Rightarrow> token list \<Rightarrow> token list" where
  "same_f v ts = filter (\<lambda>t. token_f t = v) ts"

text \<open>
  Ties in insertion order: for each f-value, the tokens of a snapshot that carry it
  appear in the order in which the narration reports their insertion.
\<close>

definition in_insertion_order :: "narration list \<Rightarrow> token list \<Rightarrow> bool" where
  "in_insertion_order ls snap \<longleftrightarrow> (\<forall>v. subseq (same_f v snap) (same_f v (enqueue_log ls)))"

definition item_token :: "item \<Rightarrow> token" where
  "item_token a = Scored (item_node a) (item_f a)"

definition fnum :: "item \<Rightarrow> int" where
  "fnum a = (case item_f a of Num v \<Rightarrow> v | Undefined \<Rightarrow> 0)"

definition numeric :: "item list \<Rightarrow> bool" where
  "numeric q \<longleftrightarrow> (\<forall>a \<in> set q. item_f a \<noteq> Undefined)"

text \<open>The invariant of the A* loop.\<close>

definition astar_inv :: "astar_vars \<Rightarrow> bool" where
  "astar_inv s \<longleftrightarrow>
     numeric (priorityQueue s) \<and> sorted (map fnum (priorityQueue s)) \<and>
     in_insertion_order (algorithmSteps s) (formatPriorityQueue (priorityQueue s)) \<and>
     (\<forall>snap \<in> set (dataStructureSteps s).
        ascending snap \<and> in_insertion_order (algorithmSteps s) snap)"

text \<open>Instructions that are neither a narration nor a snapshot display.\<close>

fun node_instruction :: "instruction \<Rightarrow> bool" where
  "node_instruction (HighlightNode v c) = True"
| "node_instruction (PositionRobotAtNode v) = True"
| "node_instruction _ = False"

text \<open>
  A page with every element the code looks up and the speed 500, the same page
  without the caption element, and the scheduler state right after
  \<^verbatim>\<open>startAnimation(['A'], [], 'bfs')\<close> on the example graph at speed 500.
\<close>

definition full_page :: page where
  "full_page = \<lparr>steps_container = True, data_structure_container = True,
     ds_title = True, speed_value = Some 500\<rparr>"

definition page_without_title :: page where
  "page_without_title = \<lparr>steps_container = True, data_structure_container = True,
     ds_title = False, speed_value = Some 500\<rparr>"

definition example_running :: scheduler where
  "example_running =
     \<lparr>algorithmSteps = [InitQueue, AddToQueue 1 ''A'' [''B'', ''C''],
                        FinalPath [], PathLength 0, TotalExplored 1],
      dataStructureSteps = [[Node ''A''], [Node ''A'', Node ''B'', Node ''C'']],
      animationInterval = Some 500, currentAnimationStep = 0,
      exploredNodes = [''A''], pathNodes = []\<rparr>"

section \<open>General lemmas\<close>

lemmas bfs_defs = generateAlgorithmSteps_def finish_steps_def neighbor_keys_def goal_reached_def
  bfs_init_def bfs_dequeue_def bfs_expand_def bfs_push_def Let_def example_graph_def
  chain_graph_def

lemmas dfs_defs = generateAlgorithmSteps_def finish_steps_def neighbor_keys_def goal_reached_def
  dfs_init_def dfs_pop_def dfs_expand_def dfs_push_def Let_def example_graph_def

lemmas astar_defs = generateAlgorithmSteps_def finish_steps_def neighbor_keys_def goal_reached_def
  astar_init_def astar_remove_def astar_relax_def astar_expand_def astar_visit_def
  heuristic_raw_def heuristic_or_0_def edge_cost_def compare_f_def js_sort_def
  formatPriorityQueue_def item_f_def item_node_def Let_def example_graph_def
  example_heuristic_def

lemma render_example:
  "map render_narration [Dequeue 12 ''C'', Calculate ''B'' 1 0 1, InitPriorityQueue Undefined (Num 2)] =
     [''Step 12: Dequeue node C'', ''    Calculate for B: g=1, h=0, f=1'',
      ''Step 0: Initialize priority queue with A (g=0, h=undefined, f=2)''] \<and>
   map render_token [Node ''A'', Scored ''B'' (Num 2)] = [''A'', ''B(f=2)'']"
  by code_simp

lemma tl_member: "x \<in> set (tl xs) \<Longrightarrow> x \<in> set xs"
  by (cases xs) auto

text \<open>A neighbour key comes from an existing adjacency entry, so the edge lookup is defined.\<close>

lemma neighbor_keys_entry:
  "neighbor \<in> set (neighbor_keys mazeGraph node) \<Longrightarrow> map_of mazeGraph node \<noteq> None"
  by (cases "map_of mazeGraph node") (simp_all add: neighbor_keys_def)

lemma neighbor_keys_distinct: "unique_keys g \<Longrightarrow> distinct (neighbor_keys g node)"
  by (auto simp: unique_keys_def neighbor_keys_def list_all_iff split: option.splits
      dest!: map_of_SomeD)

text \<open>With the caption element on the page the step generator returns.\<close>

lemma generate_with_title:
  "ds_title pg \<Longrightarrow> \<exists>t. generateAlgorithmSteps pg g h algorithm explored path = Inr t"
  by (simp add: generateAlgorithmSteps_def)

section \<open>The queue of the breadth-first reconstruction\<close>

lemma foldl_bfs_push:
  "foldl bfs_push s ns = s\<lparr>visited := visited s \<union> set ns, queue := queue s @ ns\<rparr>"
  by (induction ns arbitrary: s) (simp_all add: bfs_push_def)

lemma bfs_expand_eq:
  "bfs_expand g node s =
     (let ns = filter (\<lambda>n. n \<notin> visited s) (neighbor_keys g node)
      in if ns = [] then s
         else s\<lparr>algorithmSteps := algorithmSteps s @ [AddToQueue (stepCount s) node ns],
                visited := visited s \<union> set ns, queue := queue s @ ns,
                dataStructureSteps := dataStructureSteps s @ [map Node (queue s @ ns)],
                stepCount := stepCount s + 1\<rparr>)"
  by (simp add: bfs_expand_def Let_def foldl_bfs_push)

text \<open>
  Claim C1 at a failing input: in the breadth-first reconstruction on the chain graph
  with explored = [A, C, D], the line "Dequeue node C" is followed by the snapshot [C],
  the expansion of C by the snapshot [C, D], and the line "Dequeue node D" by the
  snapshot [D]: the node narrated as dequeued is still in the queue, because the first
  iteration never removes the start entry and every later \<^verbatim>\<open>shift\<close> removes the entry
  of the node before.
\<close>

theorem bfs_dequeued_node_stays_in_snapshot:
  "generateAlgorithmSteps pg chain_graph heuristic ''bfs'' [''A'', ''C'', ''D''] path =
     (if ds_title pg then
        Inr \<lparr>algorithmSteps =
               [InitQueue, AddToQueue 1 ''A'' [''C''], Dequeue 2 ''C'',
                AddToQueue 3 ''C'' [''D''], Dequeue 4 ''D'',
                FinalPath path, PathLength (length path), TotalExplored 3],
             dataStructureSteps =
               [[Node ''A''], [Node ''A'', Node ''C''], [Node ''C''],
                [Node ''C'', Node ''D''], [Node ''D'']],
             caption = Some ''Queue (FIFO)''\<rparr>
      else Inl TypeError)"
  by (simp add: bfs_defs)

section \<open>The stack of the depth-first reconstruction\<close>

lemma foldl_dfs_push:
  "foldl dfs_push s ns = s\<lparr>visited := visited s \<union> set ns, stack := stack s @ ns\<rparr>"
  by (induction ns arbitrary: s) (simp_all add: dfs_push_def)

lemma dfs_expand_eq:
  "dfs_expand g node s =
     (let ns = rev (filter (\<lambda>n. n \<notin> visited s) (neighbor_keys g node))
      in if ns = [] then s
         else s\<lparr>algorithmSteps := algorithmSteps s @ [AddToStack (stepCount s) node ns],
                visited := visited s \<union> set ns, stack := stack s @ ns,
                dataStructureSteps := dataStructureSteps s @ [map Node (stack s @ ns)],
                stepCount := stepCount s + 1\<rparr>)"
  by (simp add: dfs_expand_def Let_def foldl_dfs_push)

text \<open>
  Claim C2, as stated, fails: on the scenario graph with explored = [A, C, B, D] the
  snapshots are not [A], [C, B], [B], [D].
\<close>

theorem dfs_scenario_counterexample:
  "map_sum id dataStructureSteps
     (generateAlgorithmSteps full_page example_graph [] ''dfs''
        [''A'', ''C'', ''B'', ''D''] [''A'', ''B'', ''D''])
     \<noteq> Inr [[Node ''A''], [Node ''C'', Node ''B''], [Node ''B''], [Node ''D'']]"
  by (simp add: dfs_defs full_page_def)

text \<open>
  Claim C2, amended. On the scenario graph with explored = [A, C, B, D], on a page with
  the caption element: the narration starts with the initialisation, the expansion of A
  with its neighbours reversed to C, B, the pop narrated for C and the pop narrated for
  B; these two are the only pops narrated, so C is not expanded and D is never popped;
  goal-reached is narrated once, as the last line before the summary, the loop
  stopping at B, which is the goal of the code. The first snapshot is [A]; the snapshot
  of the expansion of A ends with C, B (B on top); each of the two pops removes the top
  entry of the stack.
\<close>

theorem dfs_scenario_amended:
  "case generateAlgorithmSteps pg example_graph heuristic ''dfs''
          [''A'', ''C'', ''B'', ''D''] path of
     Inl err \<Rightarrow> \<not> ds_title pg
   | Inr t \<Rightarrow>
       ds_title pg \<and>
       take 4 (algorithmSteps t) =
         [InitStack, AddToStack 1 ''A'' [''C'', ''B''], PopStack 2 ''C'', PopStack 3 ''B''] \<and>
       filter pop_line (algorithmSteps t) = [PopStack 2 ''C'', PopStack 3 ''B''] \<and>
       length (filter goal_line (algorithmSteps t)) = 1 \<and>
       goal_line (algorithmSteps t ! (length (algorithmSteps t) - 4)) \<and>
       drop (length (algorithmSteps t) - 3) (algorithmSteps t) =
         [FinalPath path, PathLength (length path), TotalExplored 4] \<and>
       4 \<le> length (dataStructureSteps t) \<and>
       dataStructureSteps t ! 0 = [Node ''A''] \<and>
       suffix [Node ''C'', Node ''B''] (dataStructureSteps t ! 1) \<and>
       dataStructureSteps t ! 2 = butlast (dataStructureSteps t ! 1) \<and>
       dataStructureSteps t ! 3 = butlast (dataStructureSteps t ! 2)"
  by (simp add: dfs_defs suffix_Cons)

section \<open>The goal test\<close>

text \<open>
  Claim C3 at a failing input: in the breadth-first and depth-first reconstructions on
  the scenario graph with explored = [A, B], the goal node B is expanded (the narration
  "Add neighbors of B to ...: D" and a snapshot that ends with D) before the
  goal-reached narration.
\<close>

theorem bfs_dfs_expand_goal_node:
  "generateAlgorithmSteps pg example_graph heuristic ''bfs'' [''A'', ''B''] path =
     (if ds_title pg then
        Inr \<lparr>algorithmSteps =
               [InitQueue, AddToQueue 1 ''A'' [''B'', ''C''], Dequeue 2 ''B'',
                AddToQueue 3 ''B'' [''D''], GoalReached 4,
                FinalPath path, PathLength (length path), TotalExplored 2],
             dataStructureSteps =
               [[Node ''A''], [Node ''A'', Node ''B'', Node ''C''],
                [Node ''B'', Node ''C''], [Node ''B'', Node ''C'', Node ''D'']],
             caption = Some ''Queue (FIFO)''\<rparr>
      else Inl TypeError) \<and>
   generateAlgorithmSteps pg example_graph heuristic ''dfs'' [''A'', ''B''] path =
     (if ds_title pg then
        Inr \<lparr>algorithmSteps =
               [InitStack, AddToStack 1 ''A'' [''C'', ''B''], PopStack 2 ''B'',
                AddToStack 3 ''B'' [''D''], GoalReached 4,
                FinalPath path, PathLength (length path), TotalExplored 2],
             dataStructureSteps =
               [[Node ''A''], [Node ''A'', Node ''C'', Node ''B''],
                [Node ''A'', Node ''C''], [Node ''A'', Node ''C'', Node ''D'']],
             caption = Some ''Stack (LIFO)''\<rparr>
      else Inl TypeError)"
  by (simp add: bfs_defs dfs_defs)

section \<open>Unknown algorithm kinds\<close>

text \<open>
  Claim C9. For an algorithm kind other than "bfs", "dfs" and "astar" the step list is
  exactly the three summary lines and the snapshot list is empty; this holds on every
  page, and no caption is written.
\<close>

theorem other_algorithm_summary_only:
  assumes "algorithm \<noteq> ''bfs''" and "algorithm \<noteq> ''dfs''" and "algorithm \<noteq> ''astar''"
  shows "generateAlgorithmSteps pg mazeGraph heuristic algorithm explored path =
     Inr \<lparr>algorithmSteps =
            [FinalPath path, PathLength (length path), TotalExplored (length explored)],
          dataStructureSteps = [], caption = None\<rparr>"
  using assms by (simp add: generateAlgorithmSteps_def finish_steps_def)

theorem other_algorithm_summary_only_witness:
  "''greedy'' \<noteq> ''bfs'' \<and> ''greedy'' \<noteq> ''dfs'' \<and> ''greedy'' \<noteq> ''astar'' \<and>
   generateAlgorithmSteps page_without_title example_graph example_heuristic ''greedy''
       [''A'', ''B''] [''A'', ''B''] =
     Inr \<lparr>algorithmSteps = [FinalPath [''A'', ''B''], PathLength 2, TotalExplored 2],
          dataStructureSteps = [], caption = None\<rparr>"
  using other_algorithm_summary_only[where algorithm = "''greedy''" and pg = page_without_title
      and mazeGraph = example_graph and heuristic = example_heuristic
      and explored = "[''A'', ''B'']" and path = "[''A'', ''B'']"]
  by simp

section \<open>Distinct node ids in the queue and the stack\<close>

lemma insertion_log_append [simp]: "insertion_log (xs @ ys) = insertion_log xs @ insertion_log ys"
  by (simp add: insertion_log_def)

lemma distinct_Node: "distinct (map Node xs) = distinct xs"
  by (simp add: distinct_map inj_on_def)

lemma goal_reached_queue [simp]: "queue (goal_reached s) = queue s"
  by (simp add: goal_reached_def)

lemma goal_reached_stack [simp]: "stack (goal_reached s) = stack s"
  by (simp add: goal_reached_def)

lemma goal_reached_inv: "frontier_inv fr s \<Longrightarrow> frontier_inv fr (goal_reached s)"
  by (simp add: frontier_inv_def goal_reached_def insertion_log_def)

lemma bfs_init_inv: "frontier_inv (queue bfs_init) bfs_init"
  by (simp add: frontier_inv_def bfs_init_def insertion_log_def)

lemma bfs_dequeue_inv:
  "frontier_inv (queue s) s \<Longrightarrow> frontier_inv (queue (bfs_dequeue i n s)) (bfs_dequeue i n s)"
  by (auto simp: frontier_inv_def bfs_dequeue_def insertion_log_def distinct_tl distinct_Node
      dest: tl_member)

lemma bfs_expand_inv:
  assumes "unique_keys g" and "frontier_inv (queue s) s"
  shows "frontier_inv (queue (bfs_expand g n s)) (bfs_expand g n s)"
proof -
  have d: "distinct (filter (\<lambda>n. n \<notin> visited s) (neighbor_keys g n))"
    using neighbor_keys_distinct[OF assms(1)] by simp
  show ?thesis using assms(2) d
    by (auto simp: frontier_inv_def bfs_expand_eq Let_def distinct_Node insertion_log_def)
qed

lemma bfs_loop_inv:
  "unique_keys g \<Longrightarrow> frontier_inv (queue s) s \<Longrightarrow>
     frontier_inv (queue (bfs_loop g i xs s)) (bfs_loop g i xs s)"
proof (induction xs arbitrary: i s)
  case Nil
  then show ?case by simp
next
  case (Cons x xs)
  have "frontier_inv (queue (bfs_expand g x (bfs_dequeue i x s)))
          (bfs_expand g x (bfs_dequeue i x s))"
    using Cons.prems by (intro bfs_expand_inv bfs_dequeue_inv)
  then show ?case using Cons.IH Cons.prems(1)
    by (auto simp: Let_def intro: goal_reached_inv)
qed

lemma dfs_init_inv: "frontier_inv (stack dfs_init) dfs_init"
  by (simp add: frontier_inv_def dfs_init_def insertion_log_def)

lemma dfs_pop_inv:
  "frontier_inv (stack s) s \<Longrightarrow> frontier_inv (stack (dfs_pop i n s)) (dfs_pop i n s)"
  by (auto simp: frontier_inv_def dfs_pop_def insertion_log_def distinct_butlast distinct_Node
      dest: in_set_butlastD)

lemma dfs_expand_inv:
  assumes "unique_keys g" and "frontier_inv (stack s) s"
  shows "frontier_inv (stack (dfs_expand g n s)) (dfs_expand g n s)"
proof -
  have d: "distinct (filter (\<lambda>n. n \<notin> visited s) (neighbor_keys g n))"
    using neighbor_keys_distinct[OF assms(1)] by simp
  show ?thesis using assms(2) d
    by (auto simp: frontier_inv_def dfs_expand_eq Let_def distinct_Node insertion_log_def)
qed

lemma dfs_loop_inv:
  "unique_keys g \<Longrightarrow> frontier_inv (stack s) s \<Longrightarrow>
     frontier_inv (stack (dfs_loop g i xs s)) (dfs_loop g i xs s)"
proof (induction xs arbitrary: i s)
  case Nil
  then show ?case by simp
next
  case (Cons x xs)
  have "frontier_inv (stack (dfs_expand g x (dfs_pop i x s)))
          (dfs_expand g x (dfs_pop i x s))"
    using Cons.prems by (intro dfs_expand_inv dfs_pop_inv)
  then show ?case using Cons.IH Cons.prems(1)
    by (auto simp: Let_def intro: goal_reached_inv)
qed

text \<open>
  Claim C10. For a graph whose adjacency objects have distinct keys, the breadth-first
  and depth-first reconstructions return exactly on the pages with the caption
  element, and then every snapshot holds pairwise distinct node ids, and the insertions
  reported over the whole run (the start node and the neighbours of each expansion) are
  pairwise distinct: no node id enters the queue or stack twice.
\<close>

theorem frontier_ids_distinct:
  assumes "unique_keys mazeGraph" and "algorithm = ''bfs'' \<or> algorithm = ''dfs''"
  shows "case generateAlgorithmSteps pg mazeGraph heuristic algorithm explored path of
           Inl err \<Rightarrow> \<not> ds_title pg
         | Inr t \<Rightarrow>
             ds_title pg \<and>
             (\<forall>snap \<in> set (dataStructureSteps t). distinct snap) \<and>
             distinct (insertion_log (algorithmSteps t))"
proof -
  have b: "frontier_inv (queue (bfs_loop mazeGraph 0 explored bfs_init))
             (bfs_loop mazeGraph 0 explored bfs_init)"
    using assms(1) bfs_init_inv by (rule bfs_loop_inv)
  have d: "frontier_inv (stack (dfs_loop mazeGraph 0 explored dfs_init))
             (dfs_loop mazeGraph 0 explored dfs_init)"
    using assms(1) dfs_init_inv by (rule dfs_loop_inv)
  show ?thesis
    using assms(2) b d
    by (auto simp: generateAlgorithmSteps_def finish_steps_def frontier_inv_def
        insertion_log_def)
qed

theorem frontier_ids_distinct_witness:
  "unique_keys example_graph \<and> (''dfs'' = ''bfs'' \<or> ''dfs'' = ''dfs'') \<and>
   (case generateAlgorithmSteps full_page example_graph [] ''dfs''
           [''A'', ''C'', ''B'', ''D''] [''A'', ''B'', ''D''] of
      Inl err \<Rightarrow> False
    | Inr t \<Rightarrow>
        dataStructureSteps t =
          [[Node ''A''], [Node ''A'', Node ''C'', Node ''B''], [Node ''A'', Node ''C''],
           [Node ''A''], [Node ''A'', Node ''D'']] \<and>
        list_all distinct (dataStructureSteps t) \<and>
        insertion_log (algorithmSteps t) = [''A'', ''C'', ''B'', ''D''] \<and>
        distinct (insertion_log (algorithmSteps t)))"
  using frontier_ids_distinct[where mazeGraph = example_graph and algorithm = "''dfs''"
      and pg = full_page and heuristic = "[]" and explored = "[''A'', ''C'', ''B'', ''D'']"
      and path = "[''A'', ''B'', ''D'']"]
  by (simp add: unique_keys_def dfs_defs insertion_log_def full_page_def)

section \<open>The priority queue of the A* reconstruction\<close>

text \<open>
  As long as the start entry carries a number, the priority queue and every snapshot
  are ascending in f, entries of equal f in insertion order.
\<close>

lemma compare_f_numeric:
  "item_f a \<noteq> Undefined \<Longrightarrow> item_f b \<noteq> Undefined \<Longrightarrow> compare_f a b = fnum a - fnum b"
  by (cases "item_f a"; cases "item_f b") (simp_all add: compare_f_def fnum_def)

lemma place_item_front:
  assumes "numeric (a # q)" "\<forall>b \<in> set q. fnum a \<le> fnum b"
  shows "place_item a q = a # q"
  using assms by (cases q) (simp_all add: numeric_def compare_f_numeric)

lemma foldr_place_item:
  assumes "numeric (x # q)" "sorted (map fnum q)"
  shows "foldr place_item q [x] =
           filter (\<lambda>b. fnum b \<le> fnum x) q @ x # filter (\<lambda>b. fnum x < fnum b) q"
  using assms
proof (induction q)
  case Nil
  then show ?case by simp
next
  case (Cons p ps)
  have num: "numeric (x # ps)" and srt: "sorted (map fnum ps)"
    and le: "\<forall>b \<in> set ps. fnum p \<le> fnum b"
    and pn: "item_f p \<noteq> Undefined" and xn: "item_f x \<noteq> Undefined"
    using Cons.prems by (auto simp: numeric_def)
  have ih: "foldr place_item ps [x] =
           filter (\<lambda>b. fnum b \<le> fnum x) ps @ x # filter (\<lambda>b. fnum x < fnum b) ps"
    using Cons.IH[OF num srt] .
  show ?case
  proof (cases "fnum p \<le> fnum x")
    case True
    have "place_item p (foldr place_item ps [x]) = p # foldr place_item ps [x]"
      unfolding ih using True le Cons.prems(1)
      by (intro place_item_front) (auto simp: numeric_def)
    then show ?thesis using True by (simp add: ih)
  next
    case False
    then have all: "\<forall>b \<in> set ps. fnum x < fnum b" using le by auto
    then have f1: "filter (\<lambda>b. fnum b \<le> fnum x) ps = []"
      and f2: "filter (\<lambda>b. fnum x < fnum b) ps = ps"
      by (auto simp: filter_empty_conv)
    have "place_item p ps = p # ps"
      using le Cons.prems(1) by (intro place_item_front) (auto simp: numeric_def)
    then show ?thesis using False pn xn
      by (simp add: ih f1 f2 compare_f_numeric)
  qed
qed

lemma js_sort_push:
  assumes "numeric (x # q)" "sorted (map fnum q)"
  shows "js_sort (q @ [x]) =
           filter (\<lambda>b. fnum b \<le> fnum x) q @ x # filter (\<lambda>b. fnum x < fnum b) q"
  using foldr_place_item[OF assms] by (simp add: js_sort_def)

lemma js_sort_push_sorted:
  assumes "numeric (x # q)" "sorted (map fnum q)"
  shows "sorted (map fnum (js_sort (q @ [x])))" "numeric (js_sort (q @ [x]))"
  using assms
  by (auto simp: js_sort_push[OF assms] sorted_append numeric_def sorted_filter)

lemma js_sort_push_stable:
  assumes "numeric (x # q)" "sorted (map fnum q)"
  shows "filter (\<lambda>a. item_f a = v) (js_sort (q @ [x])) =
         filter (\<lambda>a. item_f a = v) q @ filter (\<lambda>a. item_f a = v) [x]"
proof -
  have eq: "\<And>a. a \<in> set (x # q) \<Longrightarrow> item_f a = Num (fnum a)"
    using assms(1) by (auto simp: numeric_def fnum_def split: jsnum.splits)
  have k: "filter (\<lambda>a. item_f a = v) q =
       filter (\<lambda>a. item_f a = v) (filter (\<lambda>b. fnum b \<le> fnum x) q) @
       filter (\<lambda>a. item_f a = v) (filter (\<lambda>b. fnum x < fnum b) q)"
    using assms(2)
  proof (induction q)
    case Nil then show ?case by simp
  next
    case (Cons p ps)
    then have ih: "filter (\<lambda>a. item_f a = v) ps =
       filter (\<lambda>a. item_f a = v) (filter (\<lambda>b. fnum b \<le> fnum x) ps) @
       filter (\<lambda>a. item_f a = v) (filter (\<lambda>b. fnum x < fnum b) ps)" by simp
    show ?case
    proof (cases "fnum p \<le> fnum x")
      case True then show ?thesis using ih by simp
    next
      case False
      then have "\<forall>b \<in> set ps. fnum x < fnum b" using Cons.prems by auto
      then have "filter (\<lambda>b. fnum b \<le> fnum x) ps = []" by (auto simp: filter_empty_conv)
      then show ?thesis using False ih by simp
    qed
  qed
  have e: "item_f x = v \<Longrightarrow>
      filter (\<lambda>a. item_f a = v) (filter (\<lambda>b. fnum x < fnum b) q) = []"
    by (auto simp: filter_empty_conv fnum_def)
  show ?thesis unfolding js_sort_push[OF assms] using k e by (simp del: filter_filter)
qed

lemma same_f_format:
  "same_f v (formatPriorityQueue q) = map item_token (filter (\<lambda>a. item_f a = v) q)"
  by (induction q) (simp_all add: same_f_def formatPriorityQueue_def item_token_def)

lemma same_f_single:
  "same_f v [item_token x] = map item_token (filter (\<lambda>a. item_f a = v) [x])"
  by (simp add: same_f_def item_token_def)

lemma enqueue_log_append [simp]: "enqueue_log (xs @ ys) = enqueue_log xs @ enqueue_log ys"
  by (simp add: enqueue_log_def)

lemma same_f_append [simp]: "same_f v (xs @ ys) = same_f v xs @ same_f v ys"
  by (simp add: same_f_def)

lemma ascending_format:
  "numeric q \<Longrightarrow> sorted (map fnum q) \<Longrightarrow> ascending (formatPriorityQueue q)"
proof (induction q)
  case Nil then show ?case by (simp add: ascending_def formatPriorityQueue_def)
next
  case (Cons a q)
  have "\<And>b. b \<in> set q \<Longrightarrow> js_le (item_f a) (item_f b)"
  proof -
    fix b assume b: "b \<in> set q"
    then have "fnum a \<le> fnum b" using Cons.prems(2) by auto
    moreover have "item_f a = Num (fnum a)" "item_f b = Num (fnum b)"
      using Cons.prems(1) b by (auto simp: numeric_def fnum_def split: jsnum.splits)
    ultimately show "js_le (item_f a) (item_f b)" by simp
  qed
  moreover have "ascending (formatPriorityQueue q)"
    using Cons by (simp add: numeric_def)
  ultimately show ?case
    by (auto simp: ascending_def formatPriorityQueue_def)
qed

lemma in_insertion_order_grow:
  "in_insertion_order ls snap \<Longrightarrow> in_insertion_order (ls @ extra) snap"
  by (auto simp: in_insertion_order_def intro: subseq_rev_drop_many)

lemma in_insertion_order_same_log:
  "enqueue_log ls' = enqueue_log ls \<Longrightarrow> in_insertion_order ls snap \<Longrightarrow> in_insertion_order ls' snap"
  by (simp add: in_insertion_order_def)

lemma in_insertion_order_tl:
  assumes "in_insertion_order ls (formatPriorityQueue q)"
  shows "in_insertion_order ls (formatPriorityQueue (tl q))"
proof (cases q)
  case Nil then show ?thesis using assms by simp
next
  case (Cons a q')
  have "subseq (same_f v (formatPriorityQueue q')) (same_f v (formatPriorityQueue q))" for v
    by (auto simp: Cons same_f_def formatPriorityQueue_def intro!: list_emb_Cons)
  then show ?thesis using assms Cons
    by (auto simp: in_insertion_order_def intro: subseq_order.trans)
qed

lemma astar_init_inv:
  "map_of heuristic ''A'' = Some hA \<Longrightarrow> astar_inv (astar_init heuristic)"
  by (simp add: astar_inv_def astar_init_def heuristic_raw_def Let_def numeric_def item_f_def
      in_insertion_order_def enqueue_log_def formatPriorityQueue_def item_node_def ascending_def)

lemma astar_remove_inv: "astar_inv s \<Longrightarrow> astar_inv (astar_remove i n s)"
proof -
  assume a: "astar_inv s"
  let ?ls = "algorithmSteps s @ [RemoveLowest (stepCount s) n]"
  have q: "numeric (tl (priorityQueue s))" "sorted (map fnum (tl (priorityQueue s)))"
    using a by (auto simp: astar_inv_def numeric_def map_tl sorted_tl dest: tl_member)
  have o: "in_insertion_order ?ls (formatPriorityQueue (tl (priorityQueue s)))"
    using a by (auto simp: astar_inv_def intro: in_insertion_order_grow in_insertion_order_tl)
  have d: "\<forall>snap \<in> set (dataStructureSteps s). ascending snap \<and> in_insertion_order ?ls snap"
    using a by (auto simp: astar_inv_def intro: in_insertion_order_grow)
  show ?thesis using a q o d
    by (simp add: astar_remove_def astar_inv_def ascending_format)
qed

lemma astar_relax_inv:
  assumes "astar_inv s"
  shows "astar_inv (astar_relax g h node cg s nb)"
proof -
  define x :: item where
    "x = (nb, cg + edge_cost g node nb, Num (heuristic_or_0 h nb),
          Num (cg + edge_cost g node nb + heuristic_or_0 h nb))"
  let ?q = "priorityQueue s"
  let ?ls = "algorithmSteps s @ [Calculate nb (cg + edge_cost g node nb) (heuristic_or_0 h nb)
                (cg + edge_cost g node nb + heuristic_or_0 h nb)]"
  have nx: "numeric (x # ?q)" and sq: "sorted (map fnum ?q)"
    using assms by (auto simp: astar_inv_def numeric_def x_def item_f_def)
  have tok: "enqueue_log [Calculate nb (cg + edge_cost g node nb) (heuristic_or_0 h nb)
                (cg + edge_cost g node nb + heuristic_or_0 h nb)] = [item_token x]"
    by (simp add: enqueue_log_def item_token_def x_def item_f_def item_node_def)
  have ord: "in_insertion_order ?ls (formatPriorityQueue (js_sort (?q @ [x])))"
  proof -
    have "subseq (same_f v (formatPriorityQueue (js_sort (?q @ [x])))) (same_f v (enqueue_log ?ls))" for v
    proof -
      have old: "subseq (same_f v (formatPriorityQueue ?q)) (same_f v (enqueue_log (algorithmSteps s)))"
        using assms by (simp add: astar_inv_def in_insertion_order_def)
      have "same_f v (formatPriorityQueue (js_sort (?q @ [x]))) =
              same_f v (formatPriorityQueue ?q) @ same_f v [item_token x]"
        unfolding same_f_format same_f_single js_sort_push_stable[OF nx sq] by simp
      moreover have "same_f v (enqueue_log ?ls) = same_f v (enqueue_log (algorithmSteps s)) @ same_f v [item_token x]"
        by (simp add: tok)
      ultimately show ?thesis using old by simp
    qed
    then show ?thesis by (simp add: in_insertion_order_def)
  qed
  have d: "\<forall>snap \<in> set (dataStructureSteps s). ascending snap \<and> in_insertion_order ?ls snap"
    using assms by (auto simp: astar_inv_def intro: in_insertion_order_grow)
  show ?thesis
    using assms js_sort_push_sorted[OF nx sq] ord d
    by (simp add: astar_relax_def Let_def astar_inv_def x_def)
qed

lemma foldl_astar_relax_inv:
  "astar_inv s \<Longrightarrow> astar_inv (foldl (astar_relax g h node cg) s ns)"
  by (induction ns arbitrary: s) (simp_all add: astar_relax_inv)

lemma astar_expand_inv:
  assumes "astar_inv s"
  shows "astar_inv (astar_expand g h node cg s)"
proof -
  define ns where "ns = filter (\<lambda>n. n \<notin> visited s) (neighbor_keys g node)"
  define s1 where "s1 = s\<lparr>algorithmSteps := algorithmSteps s @ [EvaluateNeighbors (stepCount s) node ns]\<rparr>"
  define s2 where "s2 = foldl (astar_relax g h node cg) s1 ns"
  have "astar_inv s1"
    using assms by (auto simp: astar_inv_def s1_def intro: in_insertion_order_grow)
  then have i2: "astar_inv s2" unfolding s2_def by (rule foldl_astar_relax_inv)
  then have "astar_inv (s2\<lparr>dataStructureSteps := dataStructureSteps s2 @ [formatPriorityQueue (priorityQueue s2)],
                  stepCount := stepCount s2 + 1\<rparr>)"
    by (simp add: astar_inv_def ascending_format)
  then show ?thesis using assms
    by (simp add: astar_expand_def Let_def ns_def[symmetric] s1_def[symmetric] s2_def[symmetric])
qed

lemma astar_visit_inv: "astar_inv s \<Longrightarrow> astar_inv (astar_visit i n s)"
  unfolding astar_visit_def by (rule astar_remove_inv) (simp add: astar_inv_def)

lemma astar_goal_inv: "astar_inv s \<Longrightarrow> astar_inv (goal_reached s)"
  by (auto simp: astar_inv_def goal_reached_def intro: in_insertion_order_grow)

lemma astar_loop_inv: "astar_inv s \<Longrightarrow> astar_inv (astar_loop g h i xs s)"
proof (induction xs arbitrary: i s)
  case Nil then show ?case by simp
next
  case (Cons x xs)
  show ?case using Cons.prems
    by (auto simp: Let_def intro!: Cons.IH astar_goal_inv astar_expand_inv astar_visit_inv)
qed

lemma astar_snapshots_ascending_given_start_entry:
  assumes "map_of heuristic ''A'' = Some hA"
  shows "\<forall>snap \<in> set (dataStructureSteps
            (astar_loop g heuristic 0 explored (astar_init heuristic))). ascending snap"
  using astar_loop_inv[OF astar_init_inv[OF assms], of g heuristic 0 explored]
  by (simp add: astar_inv_def)

text \<open>
  Claim C4 at two failing inputs. With an empty heuristic table and explored = [A] on
  the scenario graph, the snapshot after the expansion of A is A(f=undefined), B(f=1),
  C(f=1), which is not ascending. With the full heuristic table and explored = [A, C]:
  after the first iteration A is in the visited set although nothing was removed and
  its entry is still queued; the second iteration marks C, narrates its removal and
  removes the entry of A, so that C is visited while its entry is still in the
  priority queue and in the snapshot.
\<close>

theorem astar_unsorted_snapshot_and_visit_without_pop:
  "generateAlgorithmSteps pg example_graph [] ''astar'' [''A''] path =
     (if ds_title pg then
        Inr \<lparr>algorithmSteps =
               [InitPriorityQueue Undefined Undefined,
                EvaluateNeighbors 1 ''A'' [''B'', ''C''],
                Calculate ''B'' 1 0 1, Calculate ''C'' 1 0 1,
                FinalPath path, PathLength (length path), TotalExplored 1],
             dataStructureSteps =
               [[Scored ''A'' Undefined],
                [Scored ''A'' Undefined, Scored ''B'' (Num 1), Scored ''C'' (Num 1)]],
             caption = Some ''Priority Queue (sorted by f = g + h)''\<rparr>
      else Inl TypeError) \<and>
   \<not> ascending [Scored ''A'' Undefined, Scored ''B'' (Num 1), Scored ''C'' (Num 1)] \<and>
   generateAlgorithmSteps pg example_graph example_heuristic ''astar'' [''A'', ''C''] path =
     (if ds_title pg then
        Inr \<lparr>algorithmSteps =
               [InitPriorityQueue (Num 2) (Num 2),
                EvaluateNeighbors 1 ''A'' [''B'', ''C''],
                Calculate ''B'' 1 1 2, Calculate ''C'' 1 1 2,
                RemoveLowest 2 ''C'',
                FinalPath path, PathLength (length path), TotalExplored 2],
             dataStructureSteps =
               [[Scored ''A'' (Num 2)],
                [Scored ''A'' (Num 2), Scored ''B'' (Num 2), Scored ''C'' (Num 2)],
                [Scored ''B'' (Num 2), Scored ''C'' (Num 2)]],
             caption = Some ''Priority Queue (sorted by f = g + h)''\<rparr>
      else Inl TypeError) \<and>
   visited (astar_loop example_graph example_heuristic 0 [''A'']
              (astar_init example_heuristic)) = {''A''} \<and>
   priorityQueue (astar_loop example_graph example_heuristic 0 [''A'']
              (astar_init example_heuristic)) =
     [(''A'', 0, Num 2, Num 2), (''B'', 1, Num 1, Num 2), (''C'', 1, Num 1, Num 2)] \<and>
   visited (astar_loop example_graph example_heuristic 0 [''A'', ''C'']
              (astar_init example_heuristic)) = {''C'', ''A''} \<and>
   priorityQueue (astar_loop example_graph example_heuristic 0 [''A'', ''C'']
              (astar_init example_heuristic)) =
     [(''B'', 1, Num 1, Num 2), (''C'', 1, Num 1, Num 2)]"
  by (simp add: astar_defs ascending_def)

text \<open>
  Claim C5 at a failing input: with an empty graph and an empty heuristic table (no
  entry for the start node A), the A* branch starts with h and f \<^verbatim>\<open>undefined\<close>, not
  0, in the narration and in the snapshot.
\<close>

theorem astar_start_heuristic_undefined:
  "generateAlgorithmSteps pg [] [] ''astar'' [''A'', ''B''] [''A'', ''B''] =
     (if ds_title pg then
        Inr \<lparr>algorithmSteps =
               [InitPriorityQueue Undefined Undefined, RemoveLowest 1 ''B'', GoalReached 2,
                FinalPath [''A'', ''B''], PathLength 2, TotalExplored 2],
             dataStructureSteps = [[Scored ''A'' Undefined], []],
             caption = Some ''Priority Queue (sorted by f = g + h)''\<rparr>
      else Inl TypeError)"
  by (simp add: astar_defs)

section \<open>The playback scheduler: ticks\<close>

lemma updateAlgorithmStep_present:
  "steps_container pg \<Longrightarrow> data_structure_container pg \<Longrightarrow> snd (updateAlgorithmStep pg t k) = None"
  by (simp add: updateAlgorithmStep_def Let_def)

lemma updateAlgorithmStep_scheduler [simp]:
  "updateAlgorithmStep pg (s\<lparr>currentAnimationStep := n\<rparr>) k = updateAlgorithmStep pg s k"
  by (simp add: updateAlgorithmStep_def)

lemma updateAlgorithmStep_shows:
  "x \<in> set (fst (updateAlgorithmStep pg t k)) \<Longrightarrow> \<not> node_instruction x"
  by (auto simp: updateAlgorithmStep_def Let_def split: if_splits)

lemma run_timer_stopped: "animationInterval s = None \<Longrightarrow> run_timer pg k s = ([], s)"
  by (cases k) simp_all

lemma tick_explore:
  assumes "steps_container pg" "data_structure_container pg"
    "currentAnimationStep s = n" "n < length (exploredNodes s)"
  shows "tick pg s = (HighlightNode (exploredNodes s ! n) ''visited'' # fst (updateAlgorithmStep pg s n),
                      s\<lparr>currentAnimationStep := n + 1\<rparr>, None)"
  using assms by (simp add: tick_def Let_def updateAlgorithmStep_present)

lemma tick_path:
  assumes "steps_container pg" "data_structure_container pg"
    "currentAnimationStep s = n" "\<not> n < length (exploredNodes s)"
    "n < length (exploredNodes s) + length (pathNodes s)"
  shows "tick pg s = (HighlightNode (pathNodes s ! (n - length (exploredNodes s))) ''in-path'' #
                      PositionRobotAtNode (pathNodes s ! (n - length (exploredNodes s))) #
                      fst (updateAlgorithmStep pg s n),
                      s\<lparr>currentAnimationStep := n + 1\<rparr>, None)"
  using assms by (simp add: tick_def Let_def updateAlgorithmStep_present)

lemma tick_complete:
  assumes "\<not> currentAnimationStep s < length (exploredNodes s) + length (pathNodes s)"
  shows "tick pg s = ([], s\<lparr>animationInterval := None\<rparr>, None)"
  using assms by (simp add: tick_def Let_def)

lemma run_timer_fire:
  "animationInterval s = Some d \<Longrightarrow> tick pg s = (out, s', err) \<Longrightarrow>
     run_timer pg (Suc k) s = (out # fst (run_timer pg k s'), snd (run_timer pg k s'))"
  by (simp add: Let_def)

text \<open>
  Claim C6. With three explored nodes and two path nodes, on a page that has every
  element the code looks up, the run starts and the timer fires six times: firings 0 to
  2 highlight an explored node and show the step, with no robot move; firings 3 and 4
  highlight a path node, move the robot to it and show the step; the sixth firing emits
  nothing and clears the timer, after which nothing fires, however long the timer is
  left (\<open>extra\<close>).
\<close>

theorem scheduler_three_explored_two_path:
  assumes c: "steps_container pg" "data_structure_container pg"
    and t: "ds_title pg" and v: "speed_value pg = Some speed"
  shows "case startAnimation pg mazeGraph heuristic (Some [e0, e1, e2]) (Some [p0, p1]) algorithm of
           Inl err \<Rightarrow> False
         | Inr s0 \<Rightarrow>
             run_timer pg (6 + extra) s0 =
               ([HighlightNode e0 ''visited'' # fst (updateAlgorithmStep pg s0 0),
                 HighlightNode e1 ''visited'' # fst (updateAlgorithmStep pg s0 1),
                 HighlightNode e2 ''visited'' # fst (updateAlgorithmStep pg s0 2),
                 HighlightNode p0 ''in-path'' # PositionRobotAtNode p0 # fst (updateAlgorithmStep pg s0 3),
                 HighlightNode p1 ''in-path'' # PositionRobotAtNode p1 # fst (updateAlgorithmStep pg s0 4),
                 []],
                s0\<lparr>currentAnimationStep := 5, animationInterval := None\<rparr>) \<and>
             (\<forall>k. \<forall>x \<in> set (fst (updateAlgorithmStep pg s0 k)). \<not> node_instruction x)"
proof -
  obtain g where gen:
    "generateAlgorithmSteps pg mazeGraph heuristic algorithm [e0, e1, e2] [p0, p1] = Inr g"
    using generate_with_title[OF t] by blast
  define s0 where "s0 = \<lparr>algorithmSteps = algorithmSteps g, dataStructureSteps = dataStructureSteps g,
                   animationInterval = Some (animationDelay speed), currentAnimationStep = 0,
                   exploredNodes = [e0, e1, e2], pathNodes = [p0, p1]\<rparr>"
  define at where "at k = s0\<lparr>currentAnimationStep := k\<rparr>" for k
  have start: "startAnimation pg mazeGraph heuristic (Some [e0, e1, e2]) (Some [p0, p1]) algorithm = Inr s0"
    by (simp add: startAnimation_def gen v s0_def)
  have fields [simp]: "exploredNodes (at k) = [e0, e1, e2]" "pathNodes (at k) = [p0, p1]"
    "animationInterval (at k) = Some (animationDelay speed)" "currentAnimationStep (at k) = k"
    "updateAlgorithmStep pg (at k) n = updateAlgorithmStep pg s0 n" for k n
    by (simp_all add: at_def s0_def updateAlgorithmStep_def)
  have next_at [simp]: "(at k)\<lparr>currentAnimationStep := j\<rparr> = at j" for k j
    by (simp add: at_def)
  have at0: "at 0 = s0" by (simp add: at_def s0_def)
  have t0: "tick pg (at 0) = (HighlightNode e0 ''visited'' # fst (updateAlgorithmStep pg s0 0), at 1, None)"
    using tick_explore[OF c, of "at 0" 0] by (simp add: eval_nat_numeral)
  have t1: "tick pg (at 1) = (HighlightNode e1 ''visited'' # fst (updateAlgorithmStep pg s0 1), at 2, None)"
    using tick_explore[OF c, of "at 1" 1] by (simp add: eval_nat_numeral)
  have t2: "tick pg (at 2) = (HighlightNode e2 ''visited'' # fst (updateAlgorithmStep pg s0 2), at 3, None)"
    using tick_explore[OF c, of "at 2" 2] by (simp add: eval_nat_numeral)
  have t3: "tick pg (at 3) = (HighlightNode p0 ''in-path'' # PositionRobotAtNode p0 #
                fst (updateAlgorithmStep pg s0 3), at 4, None)"
    using tick_path[OF c, of "at 3" 3] by (simp add: eval_nat_numeral)
  have t4: "tick pg (at 4) = (HighlightNode p1 ''in-path'' # PositionRobotAtNode p1 #
                fst (updateAlgorithmStep pg s0 4), at 5, None)"
    using tick_path[OF c, of "at 4" 4] by (simp add: eval_nat_numeral)
  have t5: "tick pg (at 5) = ([], (at 5)\<lparr>animationInterval := None\<rparr>, None)"
    using tick_complete[of "at 5" pg] by simp
  have r6: "run_timer pg extra ((at 5)\<lparr>animationInterval := None\<rparr>) = ([], (at 5)\<lparr>animationInterval := None\<rparr>)"
    by (rule run_timer_stopped) simp
  have r5: "run_timer pg (Suc extra) (at 5) = ([[]], (at 5)\<lparr>animationInterval := None\<rparr>)"
    using run_timer_fire[OF fields(3) t5, of extra] r6 by simp
  have r4: "run_timer pg (Suc (Suc extra)) (at 4) =
      ([HighlightNode p1 ''in-path'' # PositionRobotAtNode p1 # fst (updateAlgorithmStep pg s0 4), []],
       (at 5)\<lparr>animationInterval := None\<rparr>)"
    using run_timer_fire[OF fields(3) t4, of "Suc extra"] r5 by simp
  have r3: "run_timer pg (Suc (Suc (Suc extra))) (at 3) =
      ([HighlightNode p0 ''in-path'' # PositionRobotAtNode p0 # fst (updateAlgorithmStep pg s0 3),
        HighlightNode p1 ''in-path'' # PositionRobotAtNode p1 # fst (updateAlgorithmStep pg s0 4), []],
       (at 5)\<lparr>animationInterval := None\<rparr>)"
    using run_timer_fire[OF fields(3) t3, of "Suc (Suc extra)"] r4 by simp
  have r2: "run_timer pg (Suc (Suc (Suc (Suc extra)))) (at 2) =
      ([HighlightNode e2 ''visited'' # fst (updateAlgorithmStep pg s0 2),
        HighlightNode p0 ''in-path'' # PositionRobotAtNode p0 # fst (updateAlgorithmStep pg s0 3),
        HighlightNode p1 ''in-path'' # PositionRobotAtNode p1 # fst (updateAlgorithmStep pg s0 4), []],
       (at 5)\<lparr>animationInterval := None\<rparr>)"
    using run_timer_fire[OF fields(3) t2, of "Suc (Suc (Suc extra))"] r3 by simp
  have r1: "run_timer pg (Suc (Suc (Suc (Suc (Suc extra))))) (at 1) =
      ([HighlightNode e1 ''visited'' # fst (updateAlgorithmStep pg s0 1),
        HighlightNode e2 ''visited'' # fst (updateAlgorithmStep pg s0 2),
        HighlightNode p0 ''in-path'' # PositionRobotAtNode p0 # fst (updateAlgorithmStep pg s0 3),
        HighlightNode p1 ''in-path'' # PositionRobotAtNode p1 # fst (updateAlgorithmStep pg s0 4), []],
       (at 5)\<lparr>animationInterval := None\<rparr>)"
    using run_timer_fire[OF fields(3) t1, of "Suc (Suc (Suc (Suc extra)))"] r2 by simp
  have r0: "run_timer pg (Suc (Suc (Suc (Suc (Suc (Suc extra)))))) (at 0) =
      ([HighlightNode e0 ''visited'' # fst (updateAlgorithmStep pg s0 0),
        HighlightNode e1 ''visited'' # fst (updateAlgorithmStep pg s0 1),
        HighlightNode e2 ''visited'' # fst (updateAlgorithmStep pg s0 2),
        HighlightNode p0 ''in-path'' # PositionRobotAtNode p0 # fst (updateAlgorithmStep pg s0 3),
        HighlightNode p1 ''in-path'' # PositionRobotAtNode p1 # fst (updateAlgorithmStep pg s0 4), []],
       (at 5)\<lparr>animationInterval := None\<rparr>)"
    using run_timer_fire[OF fields(3) t0, of "Suc (Suc (Suc (Suc (Suc extra))))"] r1 by simp
  have six: "6 + extra = Suc (Suc (Suc (Suc (Suc (Suc extra)))))" by simp
  have run: "run_timer pg (6 + extra) s0 =
      ([HighlightNode e0 ''visited'' # fst (updateAlgorithmStep pg s0 0),
        HighlightNode e1 ''visited'' # fst (updateAlgorithmStep pg s0 1),
        HighlightNode e2 ''visited'' # fst (updateAlgorithmStep pg s0 2),
        HighlightNode p0 ''in-path'' # PositionRobotAtNode p0 # fst (updateAlgorithmStep pg s0 3),
        HighlightNode p1 ''in-path'' # PositionRobotAtNode p1 # fst (updateAlgorithmStep pg s0 4), []],
       s0\<lparr>currentAnimationStep := 5, animationInterval := None\<rparr>)"
    unfolding six using r0 unfolding at0 by (simp add: at_def)
  have only_shows: "\<forall>k. \<forall>x \<in> set (fst (updateAlgorithmStep pg s0 k)). \<not> node_instruction x"
    using updateAlgorithmStep_shows by blast
  show ?thesis unfolding start using run only_shows by simp
qed


theorem scheduler_three_explored_two_path_witness:
  "steps_container full_page \<and> data_structure_container full_page \<and> ds_title full_page \<and>
   speed_value full_page = Some 500 \<and>
   (case startAnimation full_page example_graph example_heuristic (Some [''A'', ''C'', ''B''])
           (Some [''A'', ''B'']) ''bfs'' of
      Inl err \<Rightarrow> False
    | Inr s0 \<Rightarrow>
        map (filter node_instruction) (fst (run_timer full_page 6 s0)) =
          [[HighlightNode ''A'' ''visited''], [HighlightNode ''C'' ''visited''],
           [HighlightNode ''B'' ''visited''],
           [HighlightNode ''A'' ''in-path'', PositionRobotAtNode ''A''],
           [HighlightNode ''B'' ''in-path'', PositionRobotAtNode ''B''], []] \<and>
        animationInterval (snd (run_timer full_page 6 s0)) = None)"
  using scheduler_three_explored_two_path[where pg = full_page and mazeGraph = example_graph
      and heuristic = example_heuristic and ?e0.0 = "''A''" and ?e1.0 = "''C''" and ?e2.0 = "''B''"
      and ?p0.0 = "''A''" and ?p1.0 = "''B''" and algorithm = "''bfs''" and speed = 500
      and extra = 0]
  by (simp add: full_page_def startAnimation_def generateAlgorithmSteps_def finish_steps_def
      updateAlgorithmStep_def)

section \<open>The playback scheduler: delay and misuse\<close>

text \<open>
  Claim C8, as stated, fails: nothing clamps the delay; at speed 1500 the delay handed
  to the timer is negative.
\<close>

theorem playback_interval_counterexample:
  "animationDelay 1500 = - 500 \<and> \<not> 0 \<le> animationDelay 1500 \<and>
   map_sum id animationInterval
     (startAnimation (full_page\<lparr>speed_value := Some 1500\<rparr>) [] [] (Some []) (Some []) ''bfs'')
     = Inr (Some (- 500))"
  by (simp add: animationDelay_def startAnimation_def generateAlgorithmSteps_def
      finish_steps_def full_page_def)

text \<open>
  Claim C8, amended. On a started run the delay handed to the repeating timer is 1000
  minus the speed, so a higher speed gives a strictly shorter delay; the code does not
  clamp it, and it is negative exactly for speeds above 1000.
\<close>

theorem playback_interval:
  "(case startAnimation (pg\<lparr>ds_title := True, speed_value := Some speed\<rparr>) mazeGraph heuristic
           (Some explored) (Some path) algorithm of
      Inl err \<Rightarrow> False
    | Inr s \<Rightarrow> animationInterval s = Some (1000 - speed)) \<and>
   (speed < speed' \<longrightarrow> animationDelay speed' < animationDelay speed) \<and>
   (animationDelay speed < 0 \<longleftrightarrow> 1000 < speed)"
  by (simp add: animationDelay_def startAnimation_def generateAlgorithmSteps_def
      finish_steps_def)

theorem playback_interval_witness:
  "map_sum id animationInterval
     (startAnimation (full_page\<lparr>ds_title := True, speed_value := Some 900\<rparr>) example_graph
        example_heuristic (Some [''A'', ''B'']) (Some [''A'', ''B'']) ''dfs'') = Inr (Some 100) \<and>
   (900::int) < 950 \<and> animationDelay 950 < animationDelay 900 \<and> \<not> animationDelay 900 < 0"
  using playback_interval[where pg = full_page and mazeGraph = example_graph
      and heuristic = example_heuristic
      and explored = "[''A'', ''B'']" and path = "[''A'', ''B'']" and algorithm = "''dfs''"
      and speed = 900 and speed' = 950]
  by (simp add: startAnimation_def generateAlgorithmSteps_def finish_steps_def
      animationDelay_def full_page_def)

text \<open>
  Claim C7, as stated, fails: a null explored list raises a TypeError, and so do empty
  lists on a page without the caption element.
\<close>

theorem start_misuse_counterexample:
  "startAnimation full_page example_graph example_heuristic None (Some [''A'', ''B'']) ''bfs''
     = Inl TypeError \<and>
   startAnimation page_without_title example_graph example_heuristic (Some []) (Some []) ''bfs''
     = Inl TypeError"
  by (simp add: startAnimation_def generateAlgorithmSteps_def page_without_title_def)

text \<open>
  Claim C7, amended. Started with empty explored and path lists on a page that has the
  caption element and the speed input, the scheduler raises nothing, and its first
  timer firing emits no instruction and clears the timer. A null explored or path list
  raises a TypeError before a timer is created, and so does any start of bfs, dfs or
  astar on a page without the caption element and any start on a page without the
  speed input. The tick handler has no exception handling: a tick clears the timer only
  in its last branch, when the tick index is past the exploration and path phases; on a
  page that has both display containers no tick raises.
\<close>

theorem start_with_empty_or_null_lists:
  "(ds_title pg \<longrightarrow> speed_value pg = Some v \<longrightarrow>
      (case startAnimation pg mazeGraph heuristic (Some []) (Some []) algorithm of
         Inl err \<Rightarrow> False
       | Inr s0 \<Rightarrow> run_timer pg (Suc k) s0 = ([[]], s0\<lparr>animationInterval := None\<rparr>))) \<and>
   startAnimation pg mazeGraph heuristic None path algorithm = Inl TypeError \<and>
   startAnimation pg mazeGraph heuristic explored None algorithm = Inl TypeError \<and>
   ((algorithm \<in> {''bfs'', ''dfs'', ''astar''} \<and> \<not> ds_title pg) \<or> speed_value pg = None \<longrightarrow>
      startAnimation pg mazeGraph heuristic explored path algorithm = Inl TypeError) \<and>
   (steps_container pg \<longrightarrow> data_structure_container pg \<longrightarrow> snd (snd (tick pg s)) = None) \<and>
   animationInterval (fst (snd (tick pg s))) =
     (if currentAnimationStep s < length (exploredNodes s) + length (pathNodes s)
      then animationInterval s else None)"
proof -
  have a: "startAnimation pg mazeGraph heuristic None path algorithm = Inl TypeError"
    by (simp add: startAnimation_def)
  have b: "startAnimation pg mazeGraph heuristic explored None algorithm = Inl TypeError"
    by (cases explored) (simp_all add: startAnimation_def)
  have c: "(algorithm \<in> {''bfs'', ''dfs'', ''astar''} \<and> \<not> ds_title pg) \<or> speed_value pg = None \<longrightarrow>
      startAnimation pg mazeGraph heuristic explored path algorithm = Inl TypeError"
    by (cases explored; cases path)
       (auto simp: startAnimation_def generateAlgorithmSteps_def split: sum.splits)
  have d: "steps_container pg \<longrightarrow> data_structure_container pg \<longrightarrow> snd (snd (tick pg s)) = None"
    by (simp add: tick_def Let_def updateAlgorithmStep_present)
  have e: "animationInterval (fst (snd (tick pg s))) =
     (if currentAnimationStep s < length (exploredNodes s) + length (pathNodes s)
      then animationInterval s else None)"
    by (simp add: tick_def Let_def)
  have f: "ds_title pg \<longrightarrow> speed_value pg = Some v \<longrightarrow>
      (case startAnimation pg mazeGraph heuristic (Some []) (Some []) algorithm of
         Inl err \<Rightarrow> False
       | Inr s0 \<Rightarrow> run_timer pg (Suc k) s0 = ([[]], s0\<lparr>animationInterval := None\<rparr>))"
    by (simp add: startAnimation_def generateAlgorithmSteps_def finish_steps_def tick_def
        run_timer_stopped)
  show ?thesis using a b c d e f by blast
qed

theorem start_with_empty_or_null_lists_witness:
  "ds_title full_page \<and> speed_value full_page = Some 500 \<and>
   map_sum id (run_timer full_page 3)
     (startAnimation full_page example_graph example_heuristic (Some []) (Some []) ''astar'')
   = Inr ([[]],
       \<lparr>algorithmSteps = [InitPriorityQueue (Num 2) (Num 2), FinalPath [], PathLength 0,
                          TotalExplored 0],
        dataStructureSteps = [[Scored ''A'' (Num 2)]],
        animationInterval = None, currentAnimationStep = 0,
        exploredNodes = [], pathNodes = []\<rparr>) \<and>
   ''bfs'' \<in> {''bfs'', ''dfs'', ''astar''} \<and> \<not> ds_title page_without_title \<and>
   startAnimation page_without_title example_graph example_heuristic (Some [''A''])
     (Some [''A'']) ''bfs'' = Inl TypeError \<and>
   steps_container full_page \<and> data_structure_container full_page \<and>
   snd (snd (tick full_page example_running)) = None \<and>
   animationInterval (fst (snd (tick full_page example_running))) = Some 500"
proof -
  have p: "ds_title full_page" "speed_value full_page = Some 500"
    "steps_container full_page" "data_structure_container full_page"
    "\<not> ds_title page_without_title"
    by (simp_all add: full_page_def page_without_title_def)
  have s: "startAnimation full_page example_graph example_heuristic (Some []) (Some []) ''astar''
     = Inr \<lparr>algorithmSteps = [InitPriorityQueue (Num 2) (Num 2), FinalPath [], PathLength 0,
                          TotalExplored 0],
        dataStructureSteps = [[Scored ''A'' (Num 2)]],
        animationInterval = Some 500, currentAnimationStep = 0,
        exploredNodes = [], pathNodes = []\<rparr>"
    by (simp add: startAnimation_def astar_defs animationDelay_def full_page_def)
  have i: "currentAnimationStep example_running
             < length (exploredNodes example_running) + length (pathNodes example_running)"
    "animationInterval example_running = Some 500"
    by (simp_all add: example_running_def)
  from start_with_empty_or_null_lists[where mazeGraph = example_graph
      and heuristic = example_heuristic and algorithm = "''astar''" and v = 500
      and pg = full_page and k = 2 and s = example_running]
    start_with_empty_or_null_lists[where mazeGraph = example_graph
      and heuristic = example_heuristic and algorithm = "''bfs''"
      and pg = page_without_title and explored = "Some [''A'']" and path = "Some [''A'']"]
  show ?thesis using p i by (simp add: s numeral_3_eq_3)
qed

end
